theory Spec2Isabelle
  imports Complex_Main
begin

section \<open>Data model\<close>

text \<open>
  The module \<^verbatim>\<open>find_pairs.py\<close> works on ASE atoms objects. An atom exposes an integer
  \<^verbatim>\<open>index\<close> and a \<^verbatim>\<open>position\<close>, a sequence of coordinates read at the subscripts 0, 1
  and 2. Python floats are modelled as the real numbers they approximate: rounding,
  overflow, infinities and NaN are outside the model, so a property that rests on the
  value of a distance is stated for coordinates that do not overflow (\<open>no_overflow\<close>
  below). Reading a subscript that the
  sequence does not have raises \<^verbatim>\<open>IndexError\<close>; so does \<^verbatim>\<open>slab[dex]\<close> for an index the
  atoms object does not hold.
\<close>

datatype error = IndexError

record atom =
  index :: int
  position :: "real list"

text \<open>
  The rows \<^verbatim>\<open>[index, distance_0, distance_1, distance_2, distance_3]\<close> appended to
  \<^verbatim>\<open>slab_positions\<close> and \<^verbatim>\<open>ads_positions\<close>; \<open>item0\<close> ... \<open>item4\<close> are the subscripts
  \<^verbatim>\<open>[0]\<close> ... \<^verbatim>\<open>[4]\<close> of a row.
\<close>

datatype row = Row (item0: int) (item1: real) (item2: real) (item3: real) (item4: real)

text \<open>
  An entry of \<^verbatim>\<open>mult\<close> is either \<^verbatim>\<open>[a_loc[0], s_loc[1]-a_loc[1], s_loc[2]-a_loc[2]]\<close> or the
  placeholder \<^verbatim>\<open>['n']\<close>. The second element of an output pair is therefore an atom
  index or the character \<^verbatim>\<open>'n'\<close>.
\<close>

datatype matched = Index int | N

datatype mult_entry = Candidate int real real | Placeholder

fun entry0 :: "mult_entry \<Rightarrow> matched" where
  "entry0 (Candidate i u v) = Index i"
| "entry0 Placeholder = N"

section \<open>find_ads_slab_pairs\<close>

text \<open>
  The body of the first two loops: the distances of one atom from the reference points
  \<open>(0,0,0)\<close>, \<open>(10,10,0)\<close>, \<open>(0,10,0)\<close> and \<open>(10,0,0)\<close>. The subscripts
  \<^verbatim>\<open>position[0]\<close>, \<^verbatim>\<open>position[1]\<close>, \<^verbatim>\<open>position[2]\<close> need three coordinates.
\<close>

definition distances :: "atom \<Rightarrow> error + row" where
  "distances loc =
     (case position loc of
        x # y # z # _ \<Rightarrow>
          Inr (Row (index loc)
                 (sqrt (x\<^sup>2 + y\<^sup>2 + z\<^sup>2))
                 (sqrt ((x - 10)\<^sup>2 + (y - 10)\<^sup>2 + z\<^sup>2))
                 (sqrt ((x - 0)\<^sup>2 + (y - 10)\<^sup>2 + z\<^sup>2))
                 (sqrt ((x - 10)\<^sup>2 + (y - 0)\<^sup>2 + z\<^sup>2)))
      | _ \<Rightarrow> Inl IndexError)"

text \<open>
  The loops \<^verbatim>\<open>for s_loc in slab\<close> and \<^verbatim>\<open>for a_loc in ads\<close> (the same code on the two
  arguments), appending one row per atom to the list built so far.
\<close>

fun positions_loop :: "atom list \<Rightarrow> row list \<Rightarrow> error + row list" where
  "positions_loop [] acc = Inr acc"
| "positions_loop (loc # rest) acc =
     (case distances loc of
        Inl e \<Rightarrow> Inl e
      | Inr r \<Rightarrow> positions_loop rest (acc @ [r]))"

text \<open>The condition of the \<^verbatim>\<open>if\<close> in the inner loop.\<close>

definition within_tol :: "real \<Rightarrow> row \<Rightarrow> row \<Rightarrow> bool" where
  "within_tol difference_tol s_loc a_loc \<longleftrightarrow>
     \<bar>item1 s_loc - item1 a_loc\<bar> \<le> difference_tol \<and>
     \<bar>item2 s_loc - item2 a_loc\<bar> \<le> difference_tol \<and>
     \<bar>item3 s_loc - item3 a_loc\<bar> \<le> difference_tol \<and>
     \<bar>item4 s_loc - item4 a_loc\<bar> \<le> difference_tol"

text \<open>The inner loop \<^verbatim>\<open>for a_loc in ads_positions\<close>, on the list \<^verbatim>\<open>mult\<close>.\<close>

fun mult_loop :: "real \<Rightarrow> row \<Rightarrow> row list \<Rightarrow> mult_entry list \<Rightarrow> mult_entry list" where
  "mult_loop difference_tol s_loc [] mult = mult"
| "mult_loop difference_tol s_loc (a_loc # rest) mult =
     (if within_tol difference_tol s_loc a_loc
      then mult_loop difference_tol s_loc rest
             (mult @ [Candidate (item0 a_loc) (item1 s_loc - item1 a_loc)
                        (item2 s_loc - item2 a_loc)])
      else mult_loop difference_tol s_loc rest mult)"

text \<open>
  One pass of the outer loop body: \<^verbatim>\<open>mult\<close> is filled, the placeholder is appended when
  it is empty, and \<^verbatim>\<open>[s_loc[0], mult[0][0]]\<close> is the pair. \<^verbatim>\<open>mult[0]\<close> on an empty list
  would raise \<^verbatim>\<open>IndexError\<close>.
\<close>

definition pair_of :: "real \<Rightarrow> row list \<Rightarrow> row \<Rightarrow> error + (int \<times> matched)" where
  "pair_of difference_tol ads_positions s_loc =
     (let mult = mult_loop difference_tol s_loc ads_positions [];
          mult = (if mult = [] then mult @ [Placeholder] else mult)
      in case mult of
           [] \<Rightarrow> Inl IndexError
         | m # _ \<Rightarrow> Inr (item0 s_loc, entry0 m))"

text \<open>The outer loop \<^verbatim>\<open>for s_loc in slab_positions\<close>, on the list \<^verbatim>\<open>pair\<close>.\<close>

fun pair_loop ::
  "real \<Rightarrow> row list \<Rightarrow> row list \<Rightarrow> (int \<times> matched) list \<Rightarrow> error + (int \<times> matched) list"
where
  "pair_loop difference_tol ads_positions [] pair = Inr pair"
| "pair_loop difference_tol ads_positions (s_loc # rest) pair =
     (case pair_of difference_tol ads_positions s_loc of
        Inl e \<Rightarrow> Inl e
      | Inr p \<Rightarrow> pair_loop difference_tol ads_positions rest (pair @ [p]))"

definition find_ads_slab_pairs ::
  "atom list \<Rightarrow> atom list \<Rightarrow> real \<Rightarrow> error + (int \<times> matched) list"
where
  "find_ads_slab_pairs slab ads difference_tol =
     (case positions_loop slab [] of
        Inl e \<Rightarrow> Inl e
      | Inr slab_positions \<Rightarrow>
          (case positions_loop ads [] of
             Inl e \<Rightarrow> Inl e
           | Inr ads_positions \<Rightarrow> pair_loop difference_tol ads_positions slab_positions []))"

section \<open>find_symmetric_pairs\<close>

text \<open>
  What the function needs of the atoms object \<^verbatim>\<open>slab\<close>: the lookup \<^verbatim>\<open>slab[dex]\<close>, which
  raises \<^verbatim>\<open>IndexError\<close> for an index it does not hold (\<open>None\<close> here), and
  \<^verbatim>\<open>get_center_of_mass()\<close>, a sequence read at the subscripts 0, 1 and 2. Both belong to
  ASE and are parameters of the model.
\<close>

record atoms =
  getitem :: "int \<Rightarrow> atom option"
  get_center_of_mass :: "real list"

type_synonym vec3 = "real \<times> real \<times> real"

text \<open>
  The right-hand side of the assignments \<^verbatim>\<open>distances_1[dex] = [...]\<close> and
  \<^verbatim>\<open>distances_2[dex] = [...]\<close>: the position of \<^verbatim>\<open>slab[dex]\<close> minus the centre of mass.
\<close>

definition displacement :: "atoms \<Rightarrow> real list \<Rightarrow> int \<Rightarrow> error + vec3" where
  "displacement slab center_of_mass dex =
     (case getitem slab dex of
        None \<Rightarrow> Inl IndexError
      | Some a \<Rightarrow>
          (case (position a, center_of_mass) of
             (x # y # z # _, cx # cy # cz # _) \<Rightarrow> Inr (x - cx, y - cy, z - cz)
           | _ \<Rightarrow> Inl IndexError))"

text \<open>
  A Python dictionary keeps its keys in insertion order; \<^verbatim>\<open>d[k] = v\<close> on a key already
  present replaces the value and leaves the key where it is, on a new key it appends.
\<close>

fun dict_set :: "('k \<times> 'v) list \<Rightarrow> 'k \<Rightarrow> 'v \<Rightarrow> ('k \<times> 'v) list" where
  "dict_set [] k v = [(k, v)]"
| "dict_set ((k', v') # d) k v =
     (if k' = k then (k, v) # d else (k', v') # dict_set d k v)"

text \<open>
  The loops \<^verbatim>\<open>for dex in atom_index_set_1\<close> and \<^verbatim>\<open>for dex in atom_index_set_2\<close> (the same
  code on the two arguments), on the dictionary built so far.
\<close>

fun distances_loop ::
  "atoms \<Rightarrow> real list \<Rightarrow> int list \<Rightarrow> (int \<times> vec3) list \<Rightarrow> error + (int \<times> vec3) list"
where
  "distances_loop slab center_of_mass [] d = Inr d"
| "distances_loop slab center_of_mass (dex # rest) d =
     (case displacement slab center_of_mass dex of
        Inl e \<Rightarrow> Inl e
      | Inr v \<Rightarrow> distances_loop slab center_of_mass rest (dict_set d dex v))"

text \<open>
  \<^verbatim>\<open>numpy.isclose(a, b)\<close> with its default tolerances \<^verbatim>\<open>rtol=1e-05\<close> and \<^verbatim>\<open>atol=1e-08\<close>:
  \<^verbatim>\<open>absolute(a - b) <= (atol + rtol * absolute(b))\<close>.
\<close>

definition isclose :: "real \<Rightarrow> real \<Rightarrow> bool" where
  "isclose a b \<longleftrightarrow> \<bar>a - b\<bar> \<le> 1 / 10 ^ 8 + 1 / 10 ^ 5 * \<bar>b\<bar>"

text \<open>The condition of the \<^verbatim>\<open>if\<close> in the nested loops.\<close>

fun symmetric :: "vec3 \<Rightarrow> vec3 \<Rightarrow> bool" where
  "symmetric (f0, f1, f2) (s0, s1, s2) \<longleftrightarrow>
     isclose f0 (s0 * - 1) \<and> isclose f1 (s1 * - 1) \<and> isclose f2 (s2 * - 1)"

text \<open>The inner loop \<^verbatim>\<open>for second_dex, second_distance in distances_2.items()\<close>.\<close>

fun second_loop ::
  "int \<Rightarrow> vec3 \<Rightarrow> (int \<times> vec3) list \<Rightarrow> (int \<times> int) list \<Rightarrow> (int \<times> int) list"
where
  "second_loop first_dex first_distance [] pairs = pairs"
| "second_loop first_dex first_distance ((second_dex, second_distance) # rest) pairs =
     (if symmetric first_distance second_distance
      then second_loop first_dex first_distance rest (pairs @ [(first_dex, second_dex)])
      else second_loop first_dex first_distance rest pairs)"

text \<open>The outer loop \<^verbatim>\<open>for first_dex, first_distance in distances_1.items()\<close>.\<close>

fun first_loop ::
  "(int \<times> vec3) list \<Rightarrow> (int \<times> vec3) list \<Rightarrow> (int \<times> int) list \<Rightarrow> (int \<times> int) list"
where
  "first_loop [] distances_2 pairs = pairs"
| "first_loop ((first_dex, first_distance) # rest) distances_2 pairs =
     first_loop rest distances_2 (second_loop first_dex first_distance distances_2 pairs)"

definition find_symmetric_pairs ::
  "atoms \<Rightarrow> int list \<Rightarrow> int list \<Rightarrow> error + (int \<times> int) list"
where
  "find_symmetric_pairs slab atom_index_set_1 atom_index_set_2 =
     (let center_of_mass = get_center_of_mass slab in
      case distances_loop slab center_of_mass atom_index_set_1 [] of
        Inl e \<Rightarrow> Inl e
      | Inr distances_1 \<Rightarrow>
          (case distances_loop slab center_of_mass atom_index_set_2 [] of
             Inl e \<Rightarrow> Inl e
           | Inr distances_2 \<Rightarrow> Inr (first_loop distances_1 distances_2 [])))"

section \<open>Vocabulary of the properties\<close>

text \<open>
  An atoms object whose positions all have exactly three coordinates, as ASE's do.
\<close>

definition three_d :: "atom list \<Rightarrow> bool" where
  "three_d s \<longleftrightarrow> list_all (\<lambda>a. length (position a) = 3) s"

text \<open>
  Coordinates of absolute value at most \<open>10\<^sup>1\<^sup>5\<^sup>0\<close>. In double precision the squares
  \<^verbatim>\<open>position[0]**2\<close>, \<^verbatim>\<open>(position[0]-10)**2\<close>, ... and their sums then stay far below the
  largest double (about \<open>1.8 * 10\<^sup>3\<^sup>0\<^sup>8\<close>) and every distance is a finite number. Beyond
  that range a square is infinite, so is the distance, the difference of two infinite
  distances is NaN and no comparison with the tolerance holds.
\<close>

definition no_overflow :: "atom list \<Rightarrow> bool" where
  "no_overflow s \<longleftrightarrow> list_all (\<lambda>a. list_all (\<lambda>c. \<bar>c\<bar> \<le> 10 ^ 150) (position a)) s"

text \<open>
  Atom \<open>a\<close> of \<^verbatim>\<open>ads\<close> passes the test of the inner loop for atom \<open>s\<close> of \<^verbatim>\<open>slab\<close>: the
  rows of the two atoms satisfy \<open>within_tol\<close>.
\<close>

definition candidate :: "real \<Rightarrow> atom \<Rightarrow> atom \<Rightarrow> bool" where
  "candidate difference_tol s a =
     (case (distances s, distances a) of
        (Inr s_loc, Inr a_loc) \<Rightarrow> within_tol difference_tol s_loc a_loc
      | _ \<Rightarrow> False)"

text \<open>
  The index of the first atom of \<^verbatim>\<open>ads\<close>, in its order, that is a candidate for \<open>s\<close>; the
  character \<^verbatim>\<open>'n'\<close> when there is none.
\<close>

definition match_of :: "real \<Rightarrow> atom \<Rightarrow> atom list \<Rightarrow> matched" where
  "match_of difference_tol s ads =
     (case List.find (candidate difference_tol s) ads of
        None \<Rightarrow> N
      | Some a \<Rightarrow> Index (index a))"

text \<open>The atom with index \<open>i\<close> at the point \<open>(x, y, z)\<close>.\<close>

definition atom_at :: "int \<Rightarrow> real \<Rightarrow> real \<Rightarrow> real \<Rightarrow> atom" where
  "atom_at i x y z = \<lparr>index = i, position = [x, y, z]\<rparr>"

text \<open>
  The keys of a dictionary after the assignments \<^verbatim>\<open>d[k] = ...\<close> for the \<open>k\<close> of a sequence,
  starting from the empty dictionary: each index once, in the order of first occurrence.
\<close>

definition add_key :: "'k list \<Rightarrow> 'k \<Rightarrow> 'k list" where
  "add_key ks k = (if k \<in> set ks then ks else ks @ [k])"

definition distinct_indices :: "'k list \<Rightarrow> 'k list" where
  "distinct_indices s = foldl add_key [] s"

text \<open>
  Every index of the sequence can be looked up in \<^verbatim>\<open>slab\<close> and its displacement from the
  centre of mass computed; \<open>disp\<close> is that displacement.
\<close>

definition lookups_ok :: "atoms \<Rightarrow> int list \<Rightarrow> bool" where
  "lookups_ok slab s \<longleftrightarrow>
     list_all (\<lambda>dex. \<not> isl (displacement slab (get_center_of_mass slab) dex)) s"

definition disp :: "atoms \<Rightarrow> int \<Rightarrow> vec3" where
  "disp slab dex = projr (displacement slab (get_center_of_mass slab) dex)"

text \<open>
  Two atoms objects with their centre of mass at the origin: in the first, atom 1 is the
  point reflection of atom 0; in the second, atoms 1 and 2 both are.
\<close>

definition reflected_slab :: atoms where
  "reflected_slab =
     \<lparr>getitem = [0 \<mapsto> atom_at 0 1 2 3, 1 \<mapsto> atom_at 1 (- 1) (- 2) (- 3)],
      get_center_of_mass = [0, 0, 0]\<rparr>"

definition twin_slab :: atoms where
  "twin_slab =
     \<lparr>getitem = [0 \<mapsto> atom_at 0 1 0 0, 1 \<mapsto> atom_at 1 (- 1) 0 0, 2 \<mapsto> atom_at 2 (- 1) 0 0],
      get_center_of_mass = [0, 0, 0]\<rparr>"

text \<open>
  An atoms object with its centre of mass at \<open>(1, 2, 3)\<close>. Atom 0 is displaced from it by
  \<open>(1, 2, 3)\<close>; atoms 1 and 5 are its point reflections; atoms 2, 3 and 4 are reflections
  except in the third, second and first coordinate; atom 6 misses the reflection by
  \<open>10\<^sup>-\<^sup>6\<close> in the first coordinate and atom 7 by \<open>10\<^sup>-\<^sup>3\<close>.
\<close>

definition offset_slab :: atoms where
  "offset_slab =
     \<lparr>getitem = [0 \<mapsto> atom_at 0 2 4 6, 1 \<mapsto> atom_at 1 0 0 0, 2 \<mapsto> atom_at 2 0 0 1,
                 3 \<mapsto> atom_at 3 0 1 0, 4 \<mapsto> atom_at 4 1 0 0, 5 \<mapsto> atom_at 5 0 0 0,
                 6 \<mapsto> atom_at 6 (- (1 / 10 ^ 6)) 0 0, 7 \<mapsto> atom_at 7 (- (1 / 10 ^ 3)) 0 0],
      get_center_of_mass = [1, 2, 3]\<rparr>"

section \<open>The loops of find_ads_slab_pairs as list functions\<close>

lemma positions_loop_acc:
  "positions_loop xs acc = (case positions_loop xs [] of Inl e \<Rightarrow> Inl e | Inr rs \<Rightarrow> Inr (acc @ rs))"
proof (induction xs arbitrary: acc)
  case Nil
  show ?case by simp
next
  case (Cons a xs)
  show ?case
  proof (cases "distances a")
    case (Inl e)
    then show ?thesis by simp
  next
    case (Inr r)
    show ?thesis using Inr Cons.IH[of "[r]"] Cons.IH[of "acc @ [r]"] by (simp split: sum.splits)
  qed
qed

lemma positions_loop_rows:
  "positions_loop xs [] = Inr rs \<Longrightarrow> list_all2 (\<lambda>a r. distances a = Inr r) xs rs"
proof (induction xs arbitrary: rs)
  case Nil
  then show ?case by simp
next
  case (Cons a xs)
  from Cons.prems obtain r where r: "distances a = Inr r"
    by (cases "distances a") auto
  with Cons.prems have "positions_loop xs [r] = Inr rs" by simp
  then obtain rs' where rs': "positions_loop xs [] = Inr rs'" "rs = r # rs'"
    by (subst (asm) positions_loop_acc) (auto split: sum.splits)
  with Cons.IH r show ?case by simp
qed

lemma distances_three_d:
  "length (position a) = 3 \<Longrightarrow> \<exists>r. distances a = Inr r"
proof -
  assume "length (position a) = 3"
  then obtain x y z where "position a = [x, y, z]"
    by (auto simp: length_Suc_conv numeral_3_eq_3)
  then show ?thesis by (simp add: distances_def)
qed

lemma positions_loop_three_d:
  "three_d xs \<Longrightarrow> \<exists>rs. positions_loop xs [] = Inr rs"
proof (induction xs)
  case Nil
  show ?case by simp
next
  case (Cons a xs)
  then obtain r rs where "distances a = Inr r" "positions_loop xs [] = Inr rs"
    using distances_three_d[of a] by (auto simp: three_d_def)
  then show ?case by (simp add: positions_loop_acc[of xs "[r]"])
qed

lemma distances_item0: "distances a = Inr r \<Longrightarrow> item0 r = index a"
  by (auto simp: distances_def split: list.splits)

lemma mult_loop_filter:
  "mult_loop tol s aps mult =
     mult @ map (\<lambda>a. Candidate (item0 a) (item1 s - item1 a) (item2 s - item2 a))
              (filter (within_tol tol s) aps)"
  by (induction aps arbitrary: mult) auto

lemma pair_of_find:
  "pair_of tol aps s =
     Inr (item0 s, case List.find (within_tol tol s) aps of None \<Rightarrow> N | Some a \<Rightarrow> Index (item0 a))"
proof (induction aps)
  case Nil
  show ?case by (simp add: pair_of_def)
next
  case (Cons a aps)
  show ?case
  proof (cases "within_tol tol s a")
    case True
    then show ?thesis by (simp add: pair_of_def mult_loop_filter)
  next
    case False
    then show ?thesis using Cons.IH by (simp add: pair_of_def mult_loop_filter)
  qed
qed

lemma pair_loop_map:
  "pair_loop tol aps sps pair =
     Inr (pair @ map (\<lambda>s. (item0 s, case List.find (within_tol tol s) aps of
                                       None \<Rightarrow> N | Some a \<Rightarrow> Index (item0 a))) sps)"
  by (induction sps arbitrary: pair) (simp_all add: pair_of_find)

lemma find_rows_atoms:
  assumes "list_all2 (\<lambda>a r. distances a = Inr r) ads aps" and "distances s = Inr s_loc"
  shows "(case List.find (within_tol tol s_loc) aps of None \<Rightarrow> N | Some a \<Rightarrow> Index (item0 a))
           = match_of tol s ads"
  using assms(1)
proof (induction rule: list_all2_induct)
  case Nil
  show ?case by (simp add: match_of_def)
next
  case (Cons a ads r aps)
  have c: "candidate tol s a = within_tol tol s_loc r"
    using Cons.hyps(1) assms(2) by (simp add: candidate_def)
  show ?case using Cons.IH Cons.hyps(1) c by (simp add: match_of_def distances_item0)
qed

lemma find_ads_slab_pairs_map:
  assumes "positions_loop slab [] = Inr sps" and "positions_loop ads [] = Inr aps"
  shows "find_ads_slab_pairs slab ads tol = Inr (map (\<lambda>s. (index s, match_of tol s ads)) slab)"
proof -
  have A: "list_all2 (\<lambda>a r. distances a = Inr r) ads aps"
    using assms(2) by (rule positions_loop_rows)
  have S: "list_all2 (\<lambda>a r. distances a = Inr r) slab sps"
    using assms(1) by (rule positions_loop_rows)
  have "map (\<lambda>s. (item0 s, case List.find (within_tol tol s) aps of
                                       None \<Rightarrow> N | Some a \<Rightarrow> Index (item0 a))) sps
        = map (\<lambda>s. (index s, match_of tol s ads)) slab"
    using S
  proof (induction rule: list_all2_induct)
    case Nil
    show ?case by simp
  next
    case (Cons s slab r sps)
    then show ?case using find_rows_atoms[OF A, of s r tol] by (simp add: distances_item0)
  qed
  then show ?thesis using assms by (simp add: find_ads_slab_pairs_def pair_loop_map)
qed

lemma find_ads_slab_pairs_Inr:
  "find_ads_slab_pairs slab ads tol = Inr pair \<Longrightarrow>
     \<exists>sps aps. positions_loop slab [] = Inr sps \<and> positions_loop ads [] = Inr aps"
  by (auto simp: find_ads_slab_pairs_def split: sum.splits)

lemma match_of_N_iff:
  "match_of tol s ads = N \<longleftrightarrow> (\<forall>a \<in> set ads. \<not> candidate tol s a)"
proof (cases "List.find (candidate tol s) ads")
  case None
  then have "\<forall>a \<in> set ads. \<not> candidate tol s a"
    unfolding find_None_iff by blast
  then show ?thesis using None by (simp add: match_of_def)
next
  case (Some a)
  then have "\<exists>a \<in> set ads. candidate tol s a"
    unfolding find_Some_iff by (metis nth_mem)
  then show ?thesis using Some by (simp add: match_of_def)
qed

lemma match_of_first:
  assumes "j < length ads" and "candidate tol s (ads ! j)"
    and "\<forall>i<j. \<not> candidate tol s (ads ! i)"
  shows "match_of tol s ads = Index (index (ads ! j))"
proof -
  have "List.find (candidate tol s) ads = Some (ads ! j)"
    using assms unfolding find_Some_iff by blast
  then show ?thesis by (simp add: match_of_def)
qed

lemma match_of_cases:
  "match_of tol s ads = N \<or>
   (\<exists>j<length ads. match_of tol s ads = Index (index (ads ! j)) \<and> candidate tol s (ads ! j)
        \<and> (\<forall>i<j. \<not> candidate tol s (ads ! i)))"
proof (cases "List.find (candidate tol s) ads")
  case None
  then show ?thesis by (simp add: match_of_def)
next
  case (Some a)
  then obtain j where "j < length ads" "candidate tol s (ads ! j)" "a = ads ! j"
    "\<forall>i<j. \<not> candidate tol s (ads ! i)"
    unfolding find_Some_iff by blast
  then show ?thesis using Some by (auto simp: match_of_def)
qed

lemma candidate_same_position:
  assumes "length (position s) = 3" and "position a = position s" and "0 \<le> tol"
  shows "candidate tol s a"
proof -
  obtain x y z where "position s = [x, y, z]"
    using assms(1) by (auto simp: length_Suc_conv numeral_3_eq_3)
  then show ?thesis using assms(2,3)
    by (simp add: candidate_def distances_def within_tol_def)
qed

lemma candidate_zero:
  assumes "candidate 0 s a"
  shows "\<exists>r. distances s = Inr r \<and>
             distances a = Inr (Row (index a) (item1 r) (item2 r) (item3 r) (item4 r))"
proof -
  from assms obtain r r' where r: "distances s = Inr r" "distances a = Inr r'"
    and w: "within_tol 0 r r'"
    by (auto simp: candidate_def split: sum.splits)
  from w have "item1 r' = item1 r" "item2 r' = item2 r" "item3 r' = item3 r" "item4 r' = item4 r"
    by (simp_all add: within_tol_def)
  moreover have "item0 r' = index a" using r(2) by (rule distances_item0)
  ultimately have "r' = Row (index a) (item1 r) (item2 r) (item3 r) (item4 r)"
    by (cases r') simp
  with r show ?thesis by simp
qed

lemma three_d_nth: "three_d xs \<Longrightarrow> k < length xs \<Longrightarrow> length (position (xs ! k)) = 3"
  by (simp add: three_d_def list_all_length)

lemma three_d_same_positions:
  "three_d xs \<Longrightarrow> map position ys = map position xs \<Longrightarrow> three_d ys"
proof -
  assume a: "three_d xs" "map position ys = map position xs"
  have "list_all (\<lambda>p. length p = 3) (map position xs)"
    using a(1) by (simp add: three_d_def list_all_iff)
  then have "list_all (\<lambda>p. length p = 3) (map position ys)" using a(2) by simp
  then show "three_d ys" by (simp add: three_d_def list_all_iff)
qed

lemma find_ads_slab_pairs_three_d:
  assumes "three_d slab" and "three_d ads"
  shows "find_ads_slab_pairs slab ads tol = Inr (map (\<lambda>s. (index s, match_of tol s ads)) slab)"
proof -
  obtain sps aps where "positions_loop slab [] = Inr sps" "positions_loop ads [] = Inr aps"
    using assms positions_loop_three_d by blast
  then show ?thesis by (rule find_ads_slab_pairs_map)
qed

lemma sqrt_100: "sqrt 100 = 10"
  by (rule real_sqrt_unique) simp_all

lemma sqrt_101: "10 \<le> sqrt 101" "sqrt 101 \<le> 103 / 10"
  by (rule real_le_rsqrt, simp add: power2_eq_square) (rule real_le_lsqrt, simp_all add: power2_eq_square)

lemma sqrt_200_201: "14 \<le> sqrt 200" "sqrt 200 \<le> sqrt 201" "sqrt 201 \<le> 143 / 10"
proof -
  show "14 \<le> sqrt 200" by (rule real_le_rsqrt) (simp add: power2_eq_square)
  show "sqrt 200 \<le> sqrt 201" by simp
  show "sqrt 201 \<le> 143 / 10" by (rule real_le_lsqrt) (simp_all add: power2_eq_square)
qed

lemma distances_atom_at:
  "distances (atom_at i x y z) =
     Inr (Row i (sqrt (x\<^sup>2 + y\<^sup>2 + z\<^sup>2)) (sqrt ((x - 10)\<^sup>2 + (y - 10)\<^sup>2 + z\<^sup>2))
            (sqrt ((x - 0)\<^sup>2 + (y - 10)\<^sup>2 + z\<^sup>2)) (sqrt ((x - 10)\<^sup>2 + (y - 0)\<^sup>2 + z\<^sup>2)))"
  by (simp add: distances_def atom_at_def)

lemma three_d_atom_at [simp]: "three_d (atom_at i x y z # xs) = three_d xs" "three_d []"
  by (simp_all add: three_d_def atom_at_def)

lemma index_atom_at [simp]: "index (atom_at i x y z) = i"
  by (simp add: atom_at_def)

lemma distances_origin: "distances (atom_at i 0 0 0) = Inr (Row i 0 (sqrt 200) 10 10)"
  by (simp add: distances_atom_at sqrt_100)

lemma distances_above: "distances (atom_at i 0 0 1) = Inr (Row i 1 (sqrt 201) (sqrt 101) (sqrt 101))"
  by (simp add: distances_atom_at)

lemma candidate_origin_above:
  "\<not> candidate (3 / 10) (atom_at i 0 0 0) (atom_at j 0 0 1)"
  "candidate 1 (atom_at i 0 0 1) (atom_at j 0 0 0)"
  using sqrt_101 sqrt_200_201
  by (simp_all add: candidate_def distances_origin distances_above within_tol_def)

lemma candidate_same: "0 \<le> tol \<Longrightarrow> candidate tol (atom_at i x y z) (atom_at j x y z)"
  by (rule candidate_same_position) (simp_all add: atom_at_def)

lemma scenario_first_candidate:
  "find_ads_slab_pairs [atom_at 5 0 0 0] [atom_at 9 0 0 0, atom_at 10 5 5 5] (3 / 10) = Inr [(5, Index 9)]"
proof -
  have "match_of (3 / 10) (atom_at 5 0 0 0) [atom_at 9 0 0 0, atom_at 10 5 5 5] = Index 9"
    using match_of_first[of 0 "[atom_at 9 0 0 0, atom_at 10 5 5 5]" "3 / 10" "atom_at 5 0 0 0"]
      candidate_same[of "3 / 10" 5 0 0 0 9] by simp
  then show ?thesis by (simp add: find_ads_slab_pairs_three_d)
qed

section \<open>Properties of find_ads_slab_pairs\<close>

text \<open>
  Claim C1, as the code has it. The inner loop collects an atom of \<^verbatim>\<open>ads\<close> exactly when
  the absolute differences of all four distances, the one to the origin included, are
  within \<^verbatim>\<open>difference_tol\<close>: \<^verbatim>\<open>mult\<close> is the list of the rows that pass the four tests, in
  the order of \<^verbatim>\<open>ads\<close>; for one atom \<open>s\<close> and one atom \<open>a\<close> the result pairs \<open>s\<close> with \<open>a\<close>
  when the four tests pass and with \<^verbatim>\<open>'n'\<close> otherwise.
\<close>

theorem candidate_iff_four_within_tol:
  "mult_loop difference_tol s_loc ads_positions [] =
     map (\<lambda>a_loc. Candidate (item0 a_loc) (item1 s_loc - item1 a_loc) (item2 s_loc - item2 a_loc))
       (filter (\<lambda>a_loc. \<bar>item1 s_loc - item1 a_loc\<bar> \<le> difference_tol \<and>
                        \<bar>item2 s_loc - item2 a_loc\<bar> \<le> difference_tol \<and>
                        \<bar>item3 s_loc - item3 a_loc\<bar> \<le> difference_tol \<and>
                        \<bar>item4 s_loc - item4 a_loc\<bar> \<le> difference_tol) ads_positions) \<and>
   (distances s = Inr s_row \<and> distances a = Inr a_row \<longrightarrow>
      find_ads_slab_pairs [s] [a] difference_tol =
        Inr [(index s,
              if \<bar>item1 s_row - item1 a_row\<bar> \<le> difference_tol \<and>
                 \<bar>item2 s_row - item2 a_row\<bar> \<le> difference_tol \<and>
                 \<bar>item3 s_row - item3 a_row\<bar> \<le> difference_tol \<and>
                 \<bar>item4 s_row - item4 a_row\<bar> \<le> difference_tol
              then Index (index a) else N)])"
  (is "?loop \<and> (?rows \<longrightarrow> ?result)")
proof -
  have loop: ?loop
    using mult_loop_filter[of difference_tol s_loc ads_positions "[]"]
    by (simp add: within_tol_def [abs_def])
  have result: "?rows \<longrightarrow> ?result"
  proof
    assume rows: ?rows
    then have "positions_loop [s] [] = Inr [s_row]" "positions_loop [a] [] = Inr [a_row]"
      by simp_all
    then have "find_ads_slab_pairs [s] [a] difference_tol =
                 Inr (map (\<lambda>s. (index s, match_of difference_tol s [a])) [s])"
      by (rule find_ads_slab_pairs_map)
    moreover have "candidate difference_tol s a = within_tol difference_tol s_row a_row"
      using rows by (simp add: candidate_def)
    ultimately show ?result
      by (simp add: match_of_def within_tol_def)
  qed
  show ?thesis using loop result by (rule conjI)
qed

theorem candidate_iff_four_within_tol_witness:
  "distances (atom_at 0 0 0 0) = Inr (Row 0 0 (sqrt 200) 10 10) \<and>
   distances (atom_at 1 0 0 1) = Inr (Row 1 1 (sqrt 201) (sqrt 101) (sqrt 101)) \<and>
   find_ads_slab_pairs [atom_at 0 0 0 0] [atom_at 1 0 0 1] 1 = Inr [(0, Index 1)]"
proof -
  have rows: "distances (atom_at 0 0 0 0) = Inr (Row 0 0 (sqrt 200) 10 10) \<and>
              distances (atom_at 1 0 0 1) = Inr (Row 1 1 (sqrt 201) (sqrt 101) (sqrt 101))"
    using distances_origin distances_above by simp
  have "find_ads_slab_pairs [atom_at 0 0 0 0] [atom_at 1 0 0 1] 1 = Inr [(0, Index 1)]"
    using candidate_iff_four_within_tol[where difference_tol = 1 and s = "atom_at 0 0 0 0"
        and s_row = "Row 0 0 (sqrt 200) 10 10" and a = "atom_at 1 0 0 1"
        and a_row = "Row 1 1 (sqrt 201) (sqrt 101) (sqrt 101)"]
      rows sqrt_101 sqrt_200_201
    by simp
  then show ?thesis using rows by simp
qed

text \<open>
  Claim C1 as stated fails. The atoms at \<open>(0,0,0)\<close> and \<open>(0,0,1)\<close> differ by at most 0.3
  in each of the distances to \<open>(10,10,0)\<close>, \<open>(0,10,0)\<close> and \<open>(10,0,0)\<close>, but by 1 in the
  distance to the origin: with the default tolerance the second atom is not collected and
  the first is paired with \<^verbatim>\<open>'n'\<close>.
\<close>

theorem origin_distance_is_compared:
  "distances (atom_at 0 0 0 0) = Inr (Row 0 0 (sqrt 200) 10 10) \<and>
   distances (atom_at 1 0 0 1) = Inr (Row 1 1 (sqrt 201) (sqrt 101) (sqrt 101)) \<and>
   \<bar>sqrt 200 - sqrt 201\<bar> \<le> 3 / 10 \<and> \<bar>10 - sqrt 101\<bar> \<le> 3 / 10 \<and>
   mult_loop (3 / 10) (Row 0 0 (sqrt 200) 10 10)
     [Row 1 1 (sqrt 201) (sqrt 101) (sqrt 101)] [] = [] \<and>
   find_ads_slab_pairs [atom_at 0 0 0 0] [atom_at 1 0 0 1] (3 / 10) = Inr [(0, N)]"
proof -
  have 1: "\<bar>sqrt 200 - sqrt 201\<bar> \<le> 3 / 10" using sqrt_200_201 by simp
  have 2: "\<bar>10 - sqrt 101\<bar> \<le> 3 / 10" using sqrt_101 by simp
  have 3: "mult_loop (3 / 10) (Row 0 0 (sqrt 200) 10 10)
             [Row 1 1 (sqrt 201) (sqrt 101) (sqrt 101)] [] = []"
    by (simp add: within_tol_def)
  have 4: "find_ads_slab_pairs [atom_at 0 0 0 0] [atom_at 1 0 0 1] (3 / 10) = Inr [(0, N)]"
    by (simp add: find_ads_slab_pairs_three_d match_of_N_iff candidate_origin_above)
  show ?thesis using 1 2 3 4 distances_origin distances_above by simp
qed

text \<open>
  Claim C2, as the code has it. When \<^verbatim>\<open>ads\<close> has the positions of \<^verbatim>\<open>slab\<close>, in the same
  order, the coordinates are at most \<open>10\<^sup>1\<^sup>5\<^sup>0\<close> in absolute value, so that no square
  overflows in double precision, and the tolerance is not negative, every atom of \<^verbatim>\<open>slab\<close>
  is paired with an atom of \<^verbatim>\<open>ads\<close>, never with \<^verbatim>\<open>'n'\<close>: the first atom of \<^verbatim>\<open>ads\<close> whose
  four distances are within the tolerance of its own, which is its own copy or an atom
  before it in \<^verbatim>\<open>ads\<close>. With tolerance 0 the four distances of the two atoms are equal.
\<close>

theorem copy_matches_first_within_tol:
  assumes "three_d slab" and "no_overflow slab" and "map position ads = map position slab"
    and "0 \<le> difference_tol" and "k < length slab"
  shows "\<exists>pair j. find_ads_slab_pairs slab ads difference_tol = Inr pair \<and> j \<le> k \<and>
           pair ! k = (index (slab ! k), Index (index (ads ! j))) \<and>
           candidate difference_tol (slab ! k) (ads ! j) \<and>
           (\<forall>i<j. \<not> candidate difference_tol (slab ! k) (ads ! i)) \<and>
           (difference_tol = 0 \<longrightarrow>
              (\<exists>r. distances (slab ! k) = Inr r \<and>
                   distances (ads ! j) =
                     Inr (Row (index (ads ! j)) (item1 r) (item2 r) (item3 r) (item4 r))))"
proof -
  let ?s = "slab ! k"
  have ads: "three_d ads" using assms(1,3) by (rule three_d_same_positions)
  have len: "length ads = length slab" using assms(3) by (metis length_map)
  have pk: "position (ads ! k) = position ?s"
    using assms(3,5) len by (metis nth_map)
  have ck: "candidate difference_tol ?s (ads ! k)"
    using three_d_nth[OF assms(1,5)] pk assms(4) by (rule candidate_same_position)
  have "match_of difference_tol ?s ads \<noteq> N"
    using ck assms(5) len by (auto simp: match_of_N_iff)
  then obtain j where j: "j < length ads"
    "match_of difference_tol ?s ads = Index (index (ads ! j))"
    "candidate difference_tol ?s (ads ! j)" "\<forall>i<j. \<not> candidate difference_tol ?s (ads ! i)"
    using match_of_cases[of difference_tol ?s ads] by blast
  have jk: "j \<le> k" using j(4) ck by (meson not_le_imp_less)
  have z: "difference_tol = 0 \<longrightarrow>
              (\<exists>r. distances ?s = Inr r \<and>
                   distances (ads ! j) =
                     Inr (Row (index (ads ! j)) (item1 r) (item2 r) (item3 r) (item4 r)))"
    using j(3) candidate_zero by blast
  have "find_ads_slab_pairs slab ads difference_tol =
          Inr (map (\<lambda>s. (index s, match_of difference_tol s ads)) slab)"
    using assms(1) ads by (rule find_ads_slab_pairs_three_d)
  moreover have "map (\<lambda>s. (index s, match_of difference_tol s ads)) slab ! k =
                   (index ?s, Index (index (ads ! j)))"
    using assms(5) j(2) by simp
  ultimately show ?thesis using jk j(3,4) z by blast
qed

theorem copy_matches_first_within_tol_witness:
  "three_d [atom_at 0 0 0 0, atom_at 1 0 0 1] \<and>
   no_overflow [atom_at 0 0 0 0, atom_at 1 0 0 1] \<and>
   map position [atom_at 7 0 0 0, atom_at 8 0 0 1] =
     map position [atom_at 0 0 0 0, atom_at 1 0 0 1] \<and>
   (0::real) \<le> 0 \<and> (1::nat) < length [atom_at 0 0 0 0, atom_at 1 0 0 1] \<and>
   (\<exists>pair j. find_ads_slab_pairs [atom_at 0 0 0 0, atom_at 1 0 0 1]
                [atom_at 7 0 0 0, atom_at 8 0 0 1] 0 = Inr pair \<and> j \<le> 1 \<and>
        pair ! 1 = (1, Index (index ([atom_at 7 0 0 0, atom_at 8 0 0 1] ! j))) \<and>
        candidate 0 (atom_at 1 0 0 1) ([atom_at 7 0 0 0, atom_at 8 0 0 1] ! j))"
proof -
  let ?slab = "[atom_at 0 0 0 0, atom_at 1 0 0 1]"
  let ?ads = "[atom_at 7 0 0 0, atom_at 8 0 0 1]"
  have h1: "three_d ?slab" by simp
  have h2: "map position ?ads = map position ?slab" by (simp add: atom_at_def)
  have h3: "(0::real) \<le> 0" by simp
  have h4: "(1::nat) < length ?slab" by simp
  have h5: "no_overflow ?slab" by (simp add: no_overflow_def atom_at_def)
  obtain pair j where "find_ads_slab_pairs ?slab ?ads 0 = Inr pair" "j \<le> 1"
    "pair ! 1 = (index (?slab ! 1), Index (index (?ads ! j)))"
    "candidate 0 (?slab ! 1) (?ads ! j)"
    using copy_matches_first_within_tol[OF h1 h5 h2 h3 h4] by blast
  then have "\<exists>pair j. find_ads_slab_pairs ?slab ?ads 0 = Inr pair \<and> j \<le> 1 \<and>
        pair ! 1 = (1, Index (index (?ads ! j))) \<and> candidate 0 (atom_at 1 0 0 1) (?ads ! j)"
    by auto
  then show ?thesis using h1 h2 h4 h5 by simp
qed

text \<open>
  Claim C2 as stated fails. With tolerance 1 and the atoms at \<open>(0,0,0)\<close> and \<open>(0,0,1)\<close>
  in both structures, the second atom is paired with the first one, which is at another
  position and whose distance to the origin is 0 where its own is 1.
\<close>

theorem copy_matched_to_other_position:
  "map position [atom_at 0 0 0 0, atom_at 1 0 0 1] =
     map position [atom_at 0 0 0 0, atom_at 1 0 0 1] \<and>
   find_ads_slab_pairs [atom_at 0 0 0 0, atom_at 1 0 0 1] [atom_at 0 0 0 0, atom_at 1 0 0 1] 1
     = Inr [(0, Index 0), (1, Index 0)] \<and>
   position (atom_at 1 0 0 1) \<noteq> position (atom_at 0 0 0 0) \<and>
   distances (atom_at 1 0 0 1) = Inr (Row 1 1 (sqrt 201) (sqrt 101) (sqrt 101)) \<and>
   distances (atom_at 0 0 0 0) = Inr (Row 0 0 (sqrt 200) 10 10)"
proof -
  let ?ads = "[atom_at 0 0 0 0, atom_at 1 0 0 1]"
  have a: "match_of 1 (atom_at 0 0 0 0) ?ads = Index 0"
    using match_of_first[of 0 ?ads 1 "atom_at 0 0 0 0"] candidate_same[of 1 0 0 0 0 0] by simp
  have b: "match_of 1 (atom_at 1 0 0 1) ?ads = Index 0"
    using match_of_first[of 0 ?ads 1 "atom_at 1 0 0 1"] candidate_origin_above(2)[of 1 0] by simp
  have "find_ads_slab_pairs ?ads ?ads 1 = Inr [(0, Index 0), (1, Index 0)]"
    by (simp add: find_ads_slab_pairs_three_d a b)
  moreover have "position (atom_at 1 0 0 1) \<noteq> position (atom_at 0 0 0 0)"
    by (simp add: atom_at_def)
  ultimately show ?thesis using distances_origin distances_above by simp
qed

text \<open>
  Claim C3. Whenever the function returns a list, the list has one entry per atom of
  \<^verbatim>\<open>slab\<close>, whatever is matched, and the first elements of the entries are the indices
  of the atoms of \<^verbatim>\<open>slab\<close> in their order; and it does return a list for structures
  whose positions have three coordinates.
\<close>

theorem pair_per_slab_atom:
  "(find_ads_slab_pairs slab ads difference_tol = Inr pair \<longrightarrow>
      length pair = length slab \<and> map fst pair = map index slab) \<and>
   (three_d slab \<and> three_d ads \<longrightarrow>
      (\<exists>pair. find_ads_slab_pairs slab ads difference_tol = Inr pair))"
  (is "(?returns \<longrightarrow> ?entries) \<and> (?three_d \<longrightarrow> ?total)")
proof -
  have entries: "?returns \<longrightarrow> ?entries"
  proof
    assume r: ?returns
    then obtain sps aps where "positions_loop slab [] = Inr sps" "positions_loop ads [] = Inr aps"
      using find_ads_slab_pairs_Inr by blast
    then have "find_ads_slab_pairs slab ads difference_tol =
                 Inr (map (\<lambda>s. (index s, match_of difference_tol s ads)) slab)"
      by (rule find_ads_slab_pairs_map)
    with r have "pair = map (\<lambda>s. (index s, match_of difference_tol s ads)) slab" by simp
    then show ?entries by (simp add: comp_def)
  qed
  have total: "?three_d \<longrightarrow> ?total"
    using find_ads_slab_pairs_three_d[of slab ads difference_tol] by blast
  show ?thesis using entries total by (rule conjI)
qed

theorem pair_per_slab_atom_witness:
  "three_d [atom_at 5 0 0 0, atom_at 6 0 0 1] \<and> three_d [atom_at 9 0 0 0] \<and>
   (\<exists>pair. find_ads_slab_pairs [atom_at 5 0 0 0, atom_at 6 0 0 1] [atom_at 9 0 0 0] (3 / 10)
              = Inr pair \<and>
        length pair = 2 \<and> map fst pair = [5, 6])"
proof -
  let ?slab = "[atom_at 5 0 0 0, atom_at 6 0 0 1]"
  let ?ads = "[atom_at 9 0 0 0]"
  have h: "three_d ?slab \<and> three_d ?ads" by simp
  then obtain pair where p: "find_ads_slab_pairs ?slab ?ads (3 / 10) = Inr pair"
    using pair_per_slab_atom[where slab = ?slab and ads = ?ads and difference_tol = "3 / 10"]
    by blast
  then have "length pair = length ?slab \<and> map fst pair = map index ?slab"
    using pair_per_slab_atom[where slab = ?slab and ads = ?ads and difference_tol = "3 / 10"
        and pair = pair]
    by blast
  then have "length pair = 2 \<and> map fst pair = [5, 6]" by simp
  with p have ex: "\<exists>pair. find_ads_slab_pairs ?slab ?ads (3 / 10) = Inr pair \<and>
                        length pair = 2 \<and> map fst pair = [5, 6]"
    by simp
  from h have h1: "three_d ?slab" and h2: "three_d ?ads" by simp_all
  show ?thesis by (rule conjI[OF h1 conjI[OF h2 ex]])
qed

text \<open>
  Claim C4. An atom of \<^verbatim>\<open>slab\<close> without a candidate in \<^verbatim>\<open>ads\<close> raises nothing: the
  function returns, and the entry of that atom has \<^verbatim>\<open>'n'\<close> as its second element. With an
  empty \<^verbatim>\<open>ads\<close> every entry has \<^verbatim>\<open>'n'\<close>; with an empty \<^verbatim>\<open>slab\<close> the result is the empty
  list.
\<close>

theorem sentinel_when_unmatched:
  assumes "three_d slab" and "three_d ads"
  shows "(\<exists>pair. find_ads_slab_pairs slab ads difference_tol = Inr pair \<and>
            length pair = length slab \<and>
            (\<forall>k<length slab. (\<forall>a \<in> set ads. \<not> candidate difference_tol (slab ! k) a) \<longrightarrow>
                 pair ! k = (index (slab ! k), N))) \<and>
         find_ads_slab_pairs slab [] difference_tol = Inr (map (\<lambda>s. (index s, N)) slab) \<and>
         find_ads_slab_pairs [] ads difference_tol = Inr []"
proof -
  let ?pair = "map (\<lambda>s. (index s, match_of difference_tol s ads)) slab"
  have 1: "find_ads_slab_pairs slab ads difference_tol = Inr ?pair"
    using assms by (rule find_ads_slab_pairs_three_d)
  have 2: "\<forall>k<length slab. (\<forall>a \<in> set ads. \<not> candidate difference_tol (slab ! k) a) \<longrightarrow>
                ?pair ! k = (index (slab ! k), N)"
    by (simp add: match_of_N_iff)
  have 3: "find_ads_slab_pairs slab [] difference_tol = Inr (map (\<lambda>s. (index s, N)) slab)"
    using find_ads_slab_pairs_three_d[OF assms(1), of "[]" difference_tol]
    by (simp add: match_of_def three_d_def)
  have 4: "find_ads_slab_pairs [] ads difference_tol = Inr []"
    using find_ads_slab_pairs_three_d[OF _ assms(2), of "[]" difference_tol]
    by (simp add: three_d_def)
  show ?thesis using 1 2 3 4 by simp
qed

theorem sentinel_when_unmatched_witness:
  "three_d [atom_at 5 0 0 0] \<and> three_d [atom_at 10 0 0 1] \<and>
   (0::nat) < length [atom_at 5 0 0 0] \<and>
   \<not> candidate (3 / 10) ([atom_at 5 0 0 0] ! 0) (atom_at 10 0 0 1) \<and>
   (\<exists>pair. find_ads_slab_pairs [atom_at 5 0 0 0] [atom_at 10 0 0 1] (3 / 10) = Inr pair \<and>
        pair ! 0 = (5, N)) \<and>
   find_ads_slab_pairs [atom_at 5 0 0 0] [] (3 / 10) = Inr [(5, N)] \<and>
   find_ads_slab_pairs [] [atom_at 10 0 0 1] (3 / 10) = Inr []"
proof -
  let ?slab = "[atom_at 5 0 0 0]"
  let ?ads = "[atom_at 10 0 0 1]"
  have h1: "three_d ?slab" by simp
  have h2: "three_d ?ads" by simp
  have h3: "\<forall>a \<in> set ?ads. \<not> candidate (3 / 10) (?slab ! 0) a"
    by (simp add: candidate_origin_above)
  from sentinel_when_unmatched[OF h1 h2, of "3 / 10"]
  obtain pair where p: "find_ads_slab_pairs ?slab ?ads (3 / 10) = Inr pair"
    "\<forall>k<length ?slab. (\<forall>a \<in> set ?ads. \<not> candidate (3 / 10) (?slab ! k) a) \<longrightarrow>
        pair ! k = (index (?slab ! k), N)"
    and e: "find_ads_slab_pairs ?slab [] (3 / 10) = Inr (map (\<lambda>s. (index s, N)) ?slab)"
      "find_ads_slab_pairs [] ?ads (3 / 10) = Inr []"
    by blast
  from p(2) h3 have "pair ! 0 = (5, N)" by simp
  then show ?thesis using p(1) e h1 h2 h3 by simp
qed

text \<open>
  Claim C5. An atom of \<^verbatim>\<open>slab\<close> with a candidate in \<^verbatim>\<open>ads\<close> is paired with the first
  candidate in the order of \<^verbatim>\<open>ads\<close>: the atom at place \<open>j\<close> when that one is a candidate and
  no atom before it is. The atom with index 5 at \<open>(0,0,0)\<close>, against the atoms with index
  9 at \<open>(0,0,0)\<close> and index 10 at \<open>(5,5,5)\<close> and with tolerance 0.3, gives \<open>[[5, 9]]\<close>.
\<close>

theorem first_candidate_selected:
  "(three_d slab \<and> three_d ads \<and> k < length slab \<and> j < length ads \<and>
    candidate difference_tol (slab ! k) (ads ! j) \<and>
    (\<forall>i<j. \<not> candidate difference_tol (slab ! k) (ads ! i)) \<longrightarrow>
      (\<exists>pair. find_ads_slab_pairs slab ads difference_tol = Inr pair \<and>
           pair ! k = (index (slab ! k), Index (index (ads ! j))))) \<and>
   find_ads_slab_pairs [atom_at 5 0 0 0] [atom_at 9 0 0 0, atom_at 10 5 5 5] (3 / 10)
     = Inr [(5, Index 9)]"
  (is "(?hyps \<longrightarrow> ?first) \<and> ?scenario")
proof -
  have first: "?hyps \<longrightarrow> ?first"
  proof
    assume h: ?hyps
    then have "match_of difference_tol (slab ! k) ads = Index (index (ads ! j))"
      using match_of_first[of j ads difference_tol "slab ! k"] by blast
    moreover have "find_ads_slab_pairs slab ads difference_tol =
          Inr (map (\<lambda>s. (index s, match_of difference_tol s ads)) slab)"
      using h find_ads_slab_pairs_three_d[of slab ads difference_tol] by blast
    ultimately show ?first using h by simp
  qed
  show ?thesis using first scenario_first_candidate by (rule conjI)
qed

theorem first_candidate_selected_witness:
  "three_d [atom_at 5 0 0 0] \<and> three_d [atom_at 10 0 0 1, atom_at 9 0 0 0] \<and>
   (0::nat) < length [atom_at 5 0 0 0] \<and> (1::nat) < length [atom_at 10 0 0 1, atom_at 9 0 0 0] \<and>
   candidate (3 / 10) ([atom_at 5 0 0 0] ! 0) ([atom_at 10 0 0 1, atom_at 9 0 0 0] ! 1) \<and>
   \<not> candidate (3 / 10) ([atom_at 5 0 0 0] ! 0) ([atom_at 10 0 0 1, atom_at 9 0 0 0] ! 0) \<and>
   (\<exists>pair. find_ads_slab_pairs [atom_at 5 0 0 0] [atom_at 10 0 0 1, atom_at 9 0 0 0] (3 / 10)
              = Inr pair \<and> pair ! 0 = (5, Index 9))"
proof -
  let ?slab = "[atom_at 5 0 0 0]"
  let ?ads = "[atom_at 10 0 0 1, atom_at 9 0 0 0]"
  have h1: "three_d ?slab" "three_d ?ads" by simp_all
  have h2: "(0::nat) < length ?slab" "(1::nat) < length ?ads" by simp_all
  have h3: "candidate (3 / 10) (?slab ! 0) (?ads ! 1)"
    by (simp add: candidate_same)
  have h4: "\<forall>i<1. \<not> candidate (3 / 10) (?slab ! 0) (?ads ! i)"
    by (simp add: candidate_origin_above)
  have "\<exists>pair. find_ads_slab_pairs ?slab ?ads (3 / 10) = Inr pair \<and>
           pair ! 0 = (index (?slab ! 0), Index (index (?ads ! 1)))"
    using first_candidate_selected[of ?slab ?ads 0 1 "3 / 10"] h1 h2 h3 h4 by blast
  then have "\<exists>pair. find_ads_slab_pairs ?slab ?ads (3 / 10) = Inr pair \<and> pair ! 0 = (5, Index 9)"
    by simp
  then show ?thesis using h1 h2 h3 h4 by simp
qed

text \<open>
  Claim C9. The lengths of the two structures are never compared: for structures with
  three-dimensional positions the function returns one entry per atom of \<^verbatim>\<open>slab\<close> whatever
  the two lengths are, and taking atoms away from \<^verbatim>\<open>ads\<close> only turns matches into
  \<^verbatim>\<open>'n'\<close>: an atom of \<^verbatim>\<open>slab\<close> that is unmatched against \<open>ads'\<close> is unmatched against every
  \<^verbatim>\<open>ads\<close> whose atoms all occur in \<open>ads'\<close>.
\<close>

theorem smaller_ads_no_error:
  assumes "three_d slab" and "three_d ads" and "three_d ads'" and "set ads \<subseteq> set ads'"
  shows "\<exists>pair pair'. find_ads_slab_pairs slab ads difference_tol = Inr pair \<and>
           find_ads_slab_pairs slab ads' difference_tol = Inr pair' \<and>
           length pair = length slab \<and> length pair' = length slab \<and>
           (\<forall>k<length slab. snd (pair' ! k) = N \<longrightarrow> snd (pair ! k) = N)"
proof -
  let ?p = "\<lambda>ads. map (\<lambda>s. (index s, match_of difference_tol s ads)) slab"
  have 1: "find_ads_slab_pairs slab ads difference_tol = Inr (?p ads)"
    using assms(1,2) by (rule find_ads_slab_pairs_three_d)
  have 2: "find_ads_slab_pairs slab ads' difference_tol = Inr (?p ads')"
    using assms(1,3) by (rule find_ads_slab_pairs_three_d)
  have 3: "\<forall>k<length slab. snd (?p ads' ! k) = N \<longrightarrow> snd (?p ads ! k) = N"
    using assms(4) by (auto simp: match_of_N_iff)
  show ?thesis using 1 2 3 by simp
qed

theorem smaller_ads_no_error_witness:
  "three_d [atom_at 5 0 0 0, atom_at 6 0 0 1] \<and> three_d [atom_at 9 0 0 0] \<and>
   three_d [atom_at 9 0 0 0, atom_at 10 0 0 1] \<and>
   set [atom_at 9 0 0 0] \<subseteq> set [atom_at 9 0 0 0, atom_at 10 0 0 1] \<and>
   length [atom_at 9 0 0 0] < length [atom_at 5 0 0 0, atom_at 6 0 0 1] \<and>
   (\<exists>pair pair'.
      find_ads_slab_pairs [atom_at 5 0 0 0, atom_at 6 0 0 1] [atom_at 9 0 0 0] (3 / 10)
        = Inr pair \<and>
      find_ads_slab_pairs [atom_at 5 0 0 0, atom_at 6 0 0 1]
        [atom_at 9 0 0 0, atom_at 10 0 0 1] (3 / 10) = Inr pair' \<and>
      length pair = 2 \<and> length pair' = 2 \<and>
      (\<forall>k<2. snd (pair' ! k) = N \<longrightarrow> snd (pair ! k) = N))"
proof -
  let ?slab = "[atom_at 5 0 0 0, atom_at 6 0 0 1]"
  let ?ads = "[atom_at 9 0 0 0]"
  let ?ads' = "[atom_at 9 0 0 0, atom_at 10 0 0 1]"
  have h1: "three_d ?slab" by simp
  have h2: "three_d ?ads" by simp
  have h3: "three_d ?ads'" by simp
  have h4: "set ?ads \<subseteq> set ?ads'" by simp
  show ?thesis using smaller_ads_no_error[OF h1 h2 h3 h4, of "3 / 10"] h1 h2 h3
    by (simp add: numeral_2_eq_2)
qed

section \<open>The loops of find_symmetric_pairs as list functions\<close>

lemma dict_set_keys: "map fst (dict_set d k v) = add_key (map fst d) k"
  by (induction d) (force simp: add_key_def)+

lemma map_of_dict_set: "map_of (dict_set d k v) = (map_of d)(k \<mapsto> v)"
  by (induction d) (auto simp: fun_eq_iff)

lemma dict_set_map:
  "dict_set (map (\<lambda>i. (i, f i)) ks) k (f k) = map (\<lambda>i. (i, f i)) (add_key ks k)"
  by (induction ks) (auto simp: add_key_def)

lemma foldl_add_key_set: "set (foldl add_key ks xs) = set ks \<union> set xs"
  by (induction xs arbitrary: ks) (auto simp: add_key_def)

lemma foldl_add_key_distinct: "distinct ks \<Longrightarrow> distinct (foldl add_key ks xs)"
  by (induction xs arbitrary: ks) (auto simp: add_key_def)

lemma foldl_add_key_id: "distinct (ks @ xs) \<Longrightarrow> foldl add_key ks xs = ks @ xs"
  by (induction xs arbitrary: ks) (auto simp: add_key_def)

lemma set_distinct_indices: "set (distinct_indices s) = set s"
  by (simp add: distinct_indices_def foldl_add_key_set)

lemma distinct_distinct_indices: "distinct (distinct_indices s)"
  by (simp add: distinct_indices_def foldl_add_key_distinct)

lemma distinct_indices_id: "distinct s \<Longrightarrow> distinct_indices s = s"
  by (simp add: distinct_indices_def foldl_add_key_id)

lemma distances_loop_ok:
  assumes "\<forall>i \<in> set xs. displacement slab com i = Inr (f i)"
  shows "distances_loop slab com xs (map (\<lambda>i. (i, f i)) ks)
           = Inr (map (\<lambda>i. (i, f i)) (foldl add_key ks xs))"
  using assms
proof (induction xs arbitrary: ks)
  case Nil
  show ?case by simp
next
  case (Cons x xs)
  then show ?case by (simp add: dict_set_map)
qed

lemma error_is: "(e::error) = IndexError"
  by (cases e) simp

lemma distances_loop_err:
  assumes "i \<in> set xs" and "isl (displacement slab com i)"
  shows "distances_loop slab com xs d = Inl IndexError"
  using assms
proof (induction xs arbitrary: d)
  case Nil
  then show ?case by simp
next
  case (Cons x xs)
  show ?case
  proof (cases "displacement slab com x")
    case (Inl e)
    then show ?thesis by (simp add: error_is[of e])
  next
    case (Inr v)
    then have "i \<in> set xs" using Cons.prems by auto
    then show ?thesis using Cons.IH Cons.prems(2) Inr by simp
  qed
qed

lemma lookups_ok_disp:
  "lookups_ok slab s \<Longrightarrow>
     \<forall>i \<in> set s. displacement slab (get_center_of_mass slab) i = Inr (disp slab i)"
  by (auto simp: lookups_ok_def disp_def list_all_iff)

lemma distances_loop_lookups_ok:
  assumes "lookups_ok slab s"
  shows "distances_loop slab (get_center_of_mass slab) s []
           = Inr (map (\<lambda>i. (i, disp slab i)) (distinct_indices s))"
  using distances_loop_ok[OF lookups_ok_disp[OF assms], of "[]"]
  by (simp add: distinct_indices_def)

lemma distances_loop_not_ok:
  assumes "\<not> lookups_ok slab s"
  shows "distances_loop slab (get_center_of_mass slab) s d = Inl IndexError"
proof -
  from assms obtain i where "i \<in> set s" "isl (displacement slab (get_center_of_mass slab) i)"
    by (auto simp: lookups_ok_def list_all_iff)
  then show ?thesis by (rule distances_loop_err)
qed

lemma second_loop_filter:
  "second_loop i di t2 pairs = pairs @ [(i, j). (j, dj) \<leftarrow> t2, symmetric di dj]"
  by (induction t2 arbitrary: pairs) auto

lemma first_loop_concat:
  "first_loop t1 t2 pairs = pairs @ [(i, j). (i, di) \<leftarrow> t1, (j, dj) \<leftarrow> t2, symmetric di dj]"
  by (induction t1 arbitrary: pairs) (auto simp: second_loop_filter)

lemma first_loop_keys:
  "first_loop (map (\<lambda>i. (i, f i)) ks1) (map (\<lambda>i. (i, f i)) ks2) [] =
     [(i, j). i \<leftarrow> ks1, j \<leftarrow> ks2, symmetric (f i) (f j)]"
  by (simp add: first_loop_concat map_concat comp_def)

lemma find_symmetric_pairs_ok:
  assumes "lookups_ok slab s1" and "lookups_ok slab s2"
  shows "find_symmetric_pairs slab s1 s2 =
           Inr [(i, j). i \<leftarrow> distinct_indices s1, j \<leftarrow> distinct_indices s2,
                        symmetric (disp slab i) (disp slab j)]"
proof -
  have 1: "distances_loop slab (get_center_of_mass slab) s1 []
             = Inr (map (\<lambda>i. (i, disp slab i)) (distinct_indices s1))"
    using assms(1) by (rule distances_loop_lookups_ok)
  have 2: "distances_loop slab (get_center_of_mass slab) s2 []
             = Inr (map (\<lambda>i. (i, disp slab i)) (distinct_indices s2))"
    using assms(2) by (rule distances_loop_lookups_ok)
  show ?thesis
    unfolding find_symmetric_pairs_def Let_def 1 2
    by (simp only: sum.case first_loop_keys)
qed

lemma find_symmetric_pairs_err:
  assumes "\<not> lookups_ok slab s1 \<or> \<not> lookups_ok slab s2"
  shows "find_symmetric_pairs slab s1 s2 = Inl IndexError"
proof (cases "lookups_ok slab s1")
  case True
  then have 1: "distances_loop slab (get_center_of_mass slab) s1 []
             = Inr (map (\<lambda>i. (i, disp slab i)) (distinct_indices s1))"
    by (rule distances_loop_lookups_ok)
  from True assms have "\<not> lookups_ok slab s2" by simp
  then have 2: "distances_loop slab (get_center_of_mass slab) s2 [] = Inl IndexError"
    by (rule distances_loop_not_ok)
  show ?thesis
    unfolding find_symmetric_pairs_def Let_def 1 2 by (simp only: sum.case)
next
  case False
  then have 1: "distances_loop slab (get_center_of_mass slab) s1 [] = Inl IndexError"
    by (rule distances_loop_not_ok)
  show ?thesis
    unfolding find_symmetric_pairs_def Let_def 1 by (simp only: sum.case)
qed

lemma pairs_product:
  "[(i, j). i \<leftarrow> xs, j \<leftarrow> ys, P i j] = filter (\<lambda>(i, j). P i j) (List.product xs ys)"
proof (induction xs)
  case Nil
  show ?case by simp
next
  case (Cons x xs)
  have "[(x, j). j \<leftarrow> ys, P x j] = filter (\<lambda>(i, j). P i j) (map (Pair x) ys)"
    by (induction ys) auto
  then show ?case using Cons.IH by simp
qed

lemma distinct_pairs:
  "distinct xs \<Longrightarrow> distinct ys \<Longrightarrow> distinct [(i, j). i \<leftarrow> xs, j \<leftarrow> ys, P i j]"
  unfolding pairs_product by (simp add: distinct_product)

lemma isclose_refl: "isclose v v"
  by (simp add: isclose_def)

lemma lookups_ok_set: "set s = set s' \<Longrightarrow> lookups_ok slab s = lookups_ok slab s'"
  by (simp add: lookups_ok_def list_all_iff)

lemma lookups_ok_distinct_indices: "lookups_ok slab (distinct_indices s) = lookups_ok slab s"
  by (rule lookups_ok_set) (rule set_distinct_indices)

lemma distances_loop_Inr:
  assumes "distances_loop slab (get_center_of_mass slab) s [] = Inr t"
  shows "lookups_ok slab s \<and> t = map (\<lambda>i. (i, disp slab i)) (distinct_indices s)"
proof (cases "lookups_ok slab s")
  case True
  then show ?thesis using assms distances_loop_lookups_ok[of slab s] by simp
next
  case False
  then show ?thesis using assms distances_loop_not_ok[of slab s "[]"] by simp
qed

lemma set_pairs:
  "set [(i, j). i \<leftarrow> xs, j \<leftarrow> ys, P i j] = {(i, j). i \<in> set xs \<and> j \<in> set ys \<and> P i j}"
  unfolding pairs_product by auto

lemma twin_displacement:
  "displacement twin_slab [0, 0, 0] 0 = Inr (1, 0, 0)"
  "displacement twin_slab [0, 0, 0] 1 = Inr (- 1, 0, 0)"
  "displacement twin_slab [0, 0, 0] 2 = Inr (- 1, 0, 0)"
  by (simp_all add: displacement_def twin_slab_def atom_at_def)

lemma twin_com: "get_center_of_mass twin_slab = [0, 0, 0]"
  by (simp add: twin_slab_def)

lemma twin_pairs:
  "find_symmetric_pairs twin_slab [0] [1, 2] = Inr [(0, 1), (0, 2)]"
  "find_symmetric_pairs twin_slab [1, 2] [0] = Inr [(1, 0), (2, 0)]"
  "find_symmetric_pairs twin_slab [2, 1] [0] = Inr [(2, 0), (1, 0)]"
  "find_symmetric_pairs twin_slab [1, 2, 1] [0] = Inr [(1, 0), (2, 0)]"
  "find_symmetric_pairs twin_slab [1, 2, 1] [0, 0] = Inr [(1, 0), (2, 0)]"
  "find_symmetric_pairs twin_slab [2, 1] [0, 0] = Inr [(2, 0), (1, 0)]"
  "find_symmetric_pairs twin_slab [1] [2] = Inr []"
  by (simp_all add: find_symmetric_pairs_def twin_com twin_displacement isclose_def)

lemma reflected_pairs:
  "find_symmetric_pairs reflected_slab [0] [1] = Inr [(0, 1)]"
  by (simp add: find_symmetric_pairs_def reflected_slab_def displacement_def atom_at_def
      isclose_def)

lemma find_symmetric_pairs_distinct_indices:
  "find_symmetric_pairs slab s1 s2 =
     find_symmetric_pairs slab (distinct_indices s1) (distinct_indices s2)"
proof (cases "lookups_ok slab s1 \<and> lookups_ok slab s2")
  case True
  then have "lookups_ok slab (distinct_indices s1)" "lookups_ok slab (distinct_indices s2)"
    by (simp_all add: lookups_ok_distinct_indices)
  then show ?thesis
    using True find_symmetric_pairs_ok[of slab s1 s2]
      find_symmetric_pairs_ok[of slab "distinct_indices s1" "distinct_indices s2"]
    by (simp add: distinct_indices_id distinct_distinct_indices)
next
  case False
  then have "\<not> lookups_ok slab (distinct_indices s1) \<or> \<not> lookups_ok slab (distinct_indices s2)"
    by (simp add: lookups_ok_distinct_indices)
  then show ?thesis
    using False find_symmetric_pairs_err[of slab s1 s2]
      find_symmetric_pairs_err[of slab "distinct_indices s1" "distinct_indices s2"]
    by simp
qed

lemma find_symmetric_pairs_set:
  assumes "set s1 = set s1'" and "set s2 = set s2'"
  shows "map_sum id set (find_symmetric_pairs slab s1 s2) =
         map_sum id set (find_symmetric_pairs slab s1' s2')"
proof (cases "lookups_ok slab s1 \<and> lookups_ok slab s2")
  case True
  then have "lookups_ok slab s1'" "lookups_ok slab s2'"
    using assms lookups_ok_set by blast+
  then show ?thesis
    using True assms find_symmetric_pairs_ok[of slab s1 s2]
      find_symmetric_pairs_ok[of slab s1' s2']
    by (simp add: set_pairs set_distinct_indices)
next
  case False
  then have "\<not> lookups_ok slab s1' \<or> \<not> lookups_ok slab s2'"
    using assms lookups_ok_set by blast
  then show ?thesis
    using False find_symmetric_pairs_err[of slab s1 s2]
      find_symmetric_pairs_err[of slab s1' s2']
    by simp
qed

lemma displacement_coordinates:
  assumes "getitem slab dex = Some a" and "position a = [x, y, z]"
  shows "displacement slab [cx, cy, cz] dex = Inr (x - cx, y - cy, z - cz)"
  using assms by (simp add: displacement_def)

lemma offset_com: "get_center_of_mass offset_slab = [1, 2, 3]"
  by (simp add: offset_slab_def)

lemma offset_getitem:
  "getitem offset_slab 0 = Some (atom_at 0 2 4 6)"
  "getitem offset_slab 1 = Some (atom_at 1 0 0 0)"
  "getitem offset_slab 2 = Some (atom_at 2 0 0 1)"
  "getitem offset_slab 3 = Some (atom_at 3 0 1 0)"
  "getitem offset_slab 4 = Some (atom_at 4 1 0 0)"
  "getitem offset_slab 5 = Some (atom_at 5 0 0 0)"
  "getitem offset_slab 6 = Some (atom_at 6 (- (1 / 10 ^ 6)) 0 0)"
  "getitem offset_slab 7 = Some (atom_at 7 (- (1 / 10 ^ 3)) 0 0)"
  by (simp_all add: offset_slab_def)

lemma offset_displacement:
  "displacement offset_slab [1, 2, 3] 0 = Inr (1, 2, 3)"
  "displacement offset_slab [1, 2, 3] 1 = Inr (- 1, - 2, - 3)"
  "displacement offset_slab [1, 2, 3] 2 = Inr (- 1, - 2, - 2)"
  "displacement offset_slab [1, 2, 3] 3 = Inr (- 1, - 1, - 3)"
  "displacement offset_slab [1, 2, 3] 4 = Inr (0, - 2, - 3)"
  "displacement offset_slab [1, 2, 3] 5 = Inr (- 1, - 2, - 3)"
  "displacement offset_slab [1, 2, 3] 6 = Inr (- (1 / 10 ^ 6) - 1, - 2, - 3)"
  "displacement offset_slab [1, 2, 3] 7 = Inr (- (1 / 10 ^ 3) - 1, - 2, - 3)"
  by (simp_all add: displacement_def offset_getitem atom_at_def)

lemma offset_pairs:
  "find_symmetric_pairs offset_slab [0] [1, 2, 3, 4, 5, 6, 7] = Inr [(0, 1), (0, 5), (0, 6)]"
  by (simp add: find_symmetric_pairs_def offset_com offset_displacement isclose_def)

lemma twin_distances_loop:
  "distances_loop twin_slab (get_center_of_mass twin_slab) [1, 2, 1] []
     = Inr [(1, (- 1, 0, 0)), (2, (- 1, 0, 0))]"
  by (simp add: twin_com twin_displacement)

lemma reflected_lookups_ok: "lookups_ok reflected_slab [0]" "lookups_ok reflected_slab [1]"
  by (simp_all add: lookups_ok_def reflected_slab_def displacement_def atom_at_def)

section \<open>Properties of find_symmetric_pairs\<close>

text \<open>
  Claim C6. Let the centre of mass be \<open>(cx, cy, cz)\<close> and let every index \<open>dex\<close> of the two
  sequences be that of an atom at \<open>(X dex, Y dex, Z dex)\<close>. Then the two dictionaries hold
  the distinct indices of the sequences, in the order of first occurrence, each with the
  displacement \<open>(X dex - cx, Y dex - cy, Z dex - cz)\<close> of its atom from the centre of mass,
  and the result is the list of the pairs \<open>(i, j)\<close> of keys, those of the first dictionary
  in the outer loop and those of the second in the inner one, such that on each of the
  three coordinates the displacement \<open>u\<close> of \<open>i\<close> and the negated displacement \<open>v\<close> of \<open>j\<close>
  satisfy \<open>\<bar>u - v\<bar> \<le> 10\<^sup>-\<^sup>8 + 10\<^sup>-\<^sup>5 * \<bar>v\<bar>\<close>. When no pair passes, the result is empty. An
  atom can occur in several pairs: atom 0 of \<open>offset_slab\<close> is paired with atoms 1, 5 and
  6, and with none of the atoms 2, 3, 4 and 7, which miss the reflection in one
  coordinate.
\<close>

theorem symmetric_pairs_nested_order:
  "(get_center_of_mass slab = [cx, cy, cz] \<and>
    (\<forall>dex \<in> set atom_index_set_1 \<union> set atom_index_set_2.
        \<exists>a. getitem slab dex = Some a \<and> position a = [X dex, Y dex, Z dex]) \<longrightarrow>
      distances_loop slab [cx, cy, cz] atom_index_set_1 [] =
        Inr (map (\<lambda>i. (i, (X i - cx, Y i - cy, Z i - cz))) (distinct_indices atom_index_set_1)) \<and>
      distances_loop slab [cx, cy, cz] atom_index_set_2 [] =
        Inr (map (\<lambda>j. (j, (X j - cx, Y j - cy, Z j - cz))) (distinct_indices atom_index_set_2)) \<and>
      find_symmetric_pairs slab atom_index_set_1 atom_index_set_2 =
        Inr [(i, j). i \<leftarrow> distinct_indices atom_index_set_1,
                     j \<leftarrow> distinct_indices atom_index_set_2,
                     \<bar>(X i - cx) - (X j - cx) * - 1\<bar> \<le> 1 / 10 ^ 8 + 1 / 10 ^ 5 * \<bar>(X j - cx) * - 1\<bar> \<and>
                     \<bar>(Y i - cy) - (Y j - cy) * - 1\<bar> \<le> 1 / 10 ^ 8 + 1 / 10 ^ 5 * \<bar>(Y j - cy) * - 1\<bar> \<and>
                     \<bar>(Z i - cz) - (Z j - cz) * - 1\<bar> \<le> 1 / 10 ^ 8 + 1 / 10 ^ 5 * \<bar>(Z j - cz) * - 1\<bar>] \<and>
      ((\<forall>i \<in> set atom_index_set_1. \<forall>j \<in> set atom_index_set_2.
           \<not> (\<bar>(X i - cx) - (X j - cx) * - 1\<bar> \<le> 1 / 10 ^ 8 + 1 / 10 ^ 5 * \<bar>(X j - cx) * - 1\<bar> \<and>
              \<bar>(Y i - cy) - (Y j - cy) * - 1\<bar> \<le> 1 / 10 ^ 8 + 1 / 10 ^ 5 * \<bar>(Y j - cy) * - 1\<bar> \<and>
              \<bar>(Z i - cz) - (Z j - cz) * - 1\<bar> \<le> 1 / 10 ^ 8 + 1 / 10 ^ 5 * \<bar>(Z j - cz) * - 1\<bar>)) \<longrightarrow>
         find_symmetric_pairs slab atom_index_set_1 atom_index_set_2 = Inr [])) \<and>
   find_symmetric_pairs offset_slab [0] [1, 2, 3, 4, 5, 6, 7] = Inr [(0, 1), (0, 5), (0, 6)]"
  (is "(?com \<and> ?pos \<longrightarrow> ?t1 \<and> ?t2 \<and> ?r \<and> (?none \<longrightarrow> ?e)) \<and> ?example")
proof -
  let ?f = "\<lambda>i. (X i - cx, Y i - cy, Z i - cz)"
  have main: "?com \<and> ?pos \<longrightarrow> ?t1 \<and> ?t2 \<and> ?r \<and> (?none \<longrightarrow> ?e)"
  proof
    assume h: "?com \<and> ?pos"
    then have com: ?com and pos: ?pos by simp_all
    have d: "\<forall>dex \<in> set atom_index_set_1 \<union> set atom_index_set_2.
               displacement slab [cx, cy, cz] dex = Inr (?f dex)"
      using pos displacement_coordinates by blast
    have d1: "\<forall>dex \<in> set atom_index_set_1. displacement slab [cx, cy, cz] dex = Inr (?f dex)"
      using d by simp
    have d2: "\<forall>dex \<in> set atom_index_set_2. displacement slab [cx, cy, cz] dex = Inr (?f dex)"
      using d by simp
    have t1: ?t1
      using distances_loop_ok[OF d1, of "[]"] by (simp only: distinct_indices_def list.map)
    have t2: ?t2
      using distances_loop_ok[OF d2, of "[]"] by (simp only: distinct_indices_def list.map)
    have "find_symmetric_pairs slab atom_index_set_1 atom_index_set_2 =
            Inr [(i, j). i \<leftarrow> distinct_indices atom_index_set_1,
                         j \<leftarrow> distinct_indices atom_index_set_2, symmetric (?f i) (?f j)]"
      unfolding find_symmetric_pairs_def Let_def com t1 t2
      by (simp only: sum.case first_loop_keys)
    then have r: ?r by (simp only: symmetric.simps isclose_def)
    have e: "?none \<longrightarrow> ?e"
    proof
      assume n: ?none
      show ?e unfolding r
        by (simp only: sum.inject set_empty[symmetric] set_pairs set_distinct_indices)
           (use n in blast)
    qed
    show "?t1 \<and> ?t2 \<and> ?r \<and> (?none \<longrightarrow> ?e)"
      using t1 t2 r e by (intro conjI)
  qed
  show ?thesis using main offset_pairs by (rule conjI)
qed

theorem symmetric_pairs_nested_order_witness:
  "get_center_of_mass offset_slab = [1, 2, 3] \<and>
   getitem offset_slab 0 = Some (atom_at 0 2 4 6) \<and>
   getitem offset_slab 1 = Some (atom_at 1 0 0 0) \<and>
   getitem offset_slab 2 = Some (atom_at 2 0 0 1) \<and>
   getitem offset_slab 3 = Some (atom_at 3 0 1 0) \<and>
   getitem offset_slab 4 = Some (atom_at 4 1 0 0) \<and>
   distances_loop offset_slab [1, 2, 3] [0] [] = Inr [(0, (1, 2, 3))] \<and>
   distances_loop offset_slab [1, 2, 3] [1, 2, 3, 4, 2] [] =
     Inr [(1, (- 1, - 2, - 3)), (2, (- 1, - 2, - 2)), (3, (- 1, - 1, - 3)), (4, (0, - 2, - 3))] \<and>
   find_symmetric_pairs offset_slab [0] [1, 2, 3, 4, 2] = Inr [(0, 1)] \<and>
   find_symmetric_pairs offset_slab [0] [2, 3, 4] = Inr []"
proof -
  let ?X = "\<lambda>dex :: int. if dex = 0 then 2 else if dex = 4 then 1 else (0 :: real)"
  let ?Y = "\<lambda>dex :: int. if dex = 0 then 4 else if dex = 3 then 1 else (0 :: real)"
  let ?Z = "\<lambda>dex :: int. if dex = 0 then 6 else if dex = 2 then 1 else (0 :: real)"
  have p1: "\<forall>dex \<in> set [0] \<union> set [1, 2, 3, 4, 2].
              \<exists>a. getitem offset_slab dex = Some a \<and> position a = [?X dex, ?Y dex, ?Z dex]"
    by (simp add: offset_getitem atom_at_def)
  have p2: "\<forall>dex \<in> set [0] \<union> set [2, 3, 4].
              \<exists>a. getitem offset_slab dex = Some a \<and> position a = [?X dex, ?Y dex, ?Z dex]"
    by (simp add: offset_getitem atom_at_def)
  note w1 = symmetric_pairs_nested_order[where slab = offset_slab and cx = 1 and cy = 2
      and cz = 3 and X = ?X and Y = ?Y and Z = ?Z and ?atom_index_set_1.0 = "[0]"
      and ?atom_index_set_2.0 = "[1, 2, 3, 4, 2]", THEN conjunct1,
      THEN mp, OF conjI[OF offset_com p1]]
  note w2 = symmetric_pairs_nested_order[where slab = offset_slab and cx = 1 and cy = 2
      and cz = 3 and X = ?X and Y = ?Y and Z = ?Z and ?atom_index_set_1.0 = "[0]"
      and ?atom_index_set_2.0 = "[2, 3, 4]", THEN conjunct1,
      THEN mp, OF conjI[OF offset_com p2]]
  have t1: "distances_loop offset_slab [1, 2, 3] [0] [] = Inr [(0, (1, 2, 3))]"
    using w1[THEN conjunct1] by (simp add: distinct_indices_def add_key_def)
  have t2: "distances_loop offset_slab [1, 2, 3] [1, 2, 3, 4, 2] [] =
     Inr [(1, (- 1, - 2, - 3)), (2, (- 1, - 2, - 2)), (3, (- 1, - 1, - 3)), (4, (0, - 2, - 3))]"
    using w1[THEN conjunct2, THEN conjunct1] by (simp add: distinct_indices_def add_key_def)
  have r1: "find_symmetric_pairs offset_slab [0] [1, 2, 3, 4, 2] = Inr [(0, 1)]"
    using w1[THEN conjunct2, THEN conjunct2, THEN conjunct1]
    by (simp add: distinct_indices_def add_key_def)
  have "\<forall>i \<in> set [0]. \<forall>j \<in> set [2, 3, 4].
           \<not> (\<bar>(?X i - 1) - (?X j - 1) * - 1\<bar> \<le> 1 / 10 ^ 8 + 1 / 10 ^ 5 * \<bar>(?X j - 1) * - 1\<bar> \<and>
              \<bar>(?Y i - 2) - (?Y j - 2) * - 1\<bar> \<le> 1 / 10 ^ 8 + 1 / 10 ^ 5 * \<bar>(?Y j - 2) * - 1\<bar> \<and>
              \<bar>(?Z i - 3) - (?Z j - 3) * - 1\<bar> \<le> 1 / 10 ^ 8 + 1 / 10 ^ 5 * \<bar>(?Z j - 3) * - 1\<bar>)"
    by simp
  with w2[THEN conjunct2, THEN conjunct2, THEN conjunct2]
  have r2: "find_symmetric_pairs offset_slab [0] [2, 3, 4] = Inr []"
    by (rule mp)
  show ?thesis using offset_com offset_getitem(1-5) t1 t2 r1 r2 by (intro conjI)
qed

text \<open>
  Claim C7. When atom \<open>j\<close> of the second sequence is at the point reflection of atom \<open>i\<close>
  of the first through the centre of mass, and every index of the two sequences can be
  looked up, the pair \<open>(i, j)\<close> is in the result. Index 0 at \<open>(1,2,3)\<close> and index 1 at
  \<open>(-1,-2,-3)\<close> about the centre of mass \<open>(0,0,0)\<close> give \<open>[[0, 1]]\<close>.
\<close>

theorem reflection_is_paired:
  "(lookups_ok slab atom_index_set_1 \<and> lookups_ok slab atom_index_set_2 \<and>
    i \<in> set atom_index_set_1 \<and> j \<in> set atom_index_set_2 \<and>
    get_center_of_mass slab = [cx, cy, cz] \<and>
    getitem slab i = Some a \<and> position a = [x, y, z] \<and>
    getitem slab j = Some b \<and> position b = [2 * cx - x, 2 * cy - y, 2 * cz - z] \<longrightarrow>
      (\<exists>pairs. find_symmetric_pairs slab atom_index_set_1 atom_index_set_2 = Inr pairs \<and>
           (i, j) \<in> set pairs)) \<and>
   find_symmetric_pairs reflected_slab [0] [1] = Inr [(0, 1)]"
proof -
  {
    assume ok: "lookups_ok slab atom_index_set_1" "lookups_ok slab atom_index_set_2"
      and ij: "i \<in> set atom_index_set_1" "j \<in> set atom_index_set_2"
      and c: "get_center_of_mass slab = [cx, cy, cz]"
      and a: "getitem slab i = Some a" "position a = [x, y, z]"
      and b: "getitem slab j = Some b" "position b = [2 * cx - x, 2 * cy - y, 2 * cz - z]"
    have di: "disp slab i = (x - cx, y - cy, z - cz)"
      using a c by (simp add: disp_def displacement_def)
    have dj: "disp slab j = (cx - x, cy - y, cz - z)"
      using b c by (simp add: disp_def displacement_def)
    have s: "symmetric (disp slab i) (disp slab j)"
      unfolding di dj by (simp add: isclose_refl)
    have "(i, j) \<in> set [(i, j). i \<leftarrow> distinct_indices atom_index_set_1,
                     j \<leftarrow> distinct_indices atom_index_set_2,
                     symmetric (disp slab i) (disp slab j)]"
      unfolding set_pairs set_distinct_indices using ij s by simp
    then have "\<exists>pairs. find_symmetric_pairs slab atom_index_set_1 atom_index_set_2 = Inr pairs \<and>
           (i, j) \<in> set pairs"
      using find_symmetric_pairs_ok[OF ok] by simp
  }
  then show ?thesis using reflected_pairs by blast
qed

theorem reflection_is_paired_witness:
  "lookups_ok reflected_slab [0] \<and> lookups_ok reflected_slab [1] \<and>
   (0::int) \<in> set [0] \<and> (1::int) \<in> set [1] \<and>
   get_center_of_mass reflected_slab = [0, 0, 0] \<and>
   getitem reflected_slab 0 = Some (atom_at 0 1 2 3) \<and>
   position (atom_at 0 1 2 3) = [1, 2, 3] \<and>
   getitem reflected_slab 1 = Some (atom_at 1 (- 1) (- 2) (- 3)) \<and>
   position (atom_at 1 (- 1) (- 2) (- 3)) = [2 * 0 - 1, 2 * 0 - 2, 2 * 0 - 3] \<and>
   (\<exists>pairs. find_symmetric_pairs reflected_slab [0] [1] = Inr pairs \<and> (0, 1) \<in> set pairs)"
proof -
  have h: "get_center_of_mass reflected_slab = [0, 0, 0]"
    "getitem reflected_slab 0 = Some (atom_at 0 1 2 3)"
    "position (atom_at 0 1 2 3) = [1, 2, 3]"
    "getitem reflected_slab 1 = Some (atom_at 1 (- 1) (- 2) (- 3))"
    "position (atom_at 1 (- 1) (- 2) (- 3)) = [2 * 0 - 1, 2 * 0 - 2, 2 * 0 - 3]"
    by (simp_all add: reflected_slab_def atom_at_def)
  have m: "(0::int) \<in> set [0]" "(1::int) \<in> set [1]" by simp_all
  have "\<exists>pairs. find_symmetric_pairs reflected_slab [0] [1] = Inr pairs \<and> (0, 1) \<in> set pairs"
    using reflection_is_paired[where slab = reflected_slab and ?atom_index_set_1.0 = "[0]"
        and ?atom_index_set_2.0 = "[1]" and i = 0 and j = 1 and cx = 0 and cy = 0 and cz = 0
        and a = "atom_at 0 1 2 3" and x = 1 and y = 2 and z = 3
        and b = "atom_at 1 (- 1) (- 2) (- 3)"]
      reflected_lookups_ok h m by blast
  then show ?thesis using reflected_lookups_ok h m by blast
qed

text \<open>
  Claim C8, as the code has it. The dictionary built from an index sequence holds one
  entry per distinct index, in the order of first occurrence, and the value of an index is
  the displacement of the atom with that index; an assignment to a key already present
  replaces the value where the key is, so the last write wins. The result of the function
  is the same on the sequences with the repeated indices removed (first occurrences
  kept); as a set of pairs, it depends only on the sets of indices of the two sequences.
\<close>

theorem table_one_entry_per_index:
  "(distances_loop slab (get_center_of_mass slab) s [] = Inr t \<longrightarrow>
      map fst t = distinct_indices s \<and> distinct (map fst t) \<and> set (map fst t) = set s \<and>
      (\<forall>(dex, v) \<in> set t. displacement slab (get_center_of_mass slab) dex = Inr v)) \<and>
   map fst (dict_set d k v) = add_key (map fst d) k \<and>
   map_of (dict_set d k v) = (map_of d)(k \<mapsto> v) \<and>
   find_symmetric_pairs slab s1 s2 =
     find_symmetric_pairs slab (distinct_indices s1) (distinct_indices s2) \<and>
   (set s1 = set s1' \<and> set s2 = set s2' \<longrightarrow>
      map_sum id set (find_symmetric_pairs slab s1 s2) =
      map_sum id set (find_symmetric_pairs slab s1' s2'))"
  (is "?table \<and> ?keys \<and> ?last \<and> ?dedup \<and> ?sets")
proof -
  have table: ?table
  proof
    assume l: "distances_loop slab (get_center_of_mass slab) s [] = Inr t"
    then have ok: "lookups_ok slab s" and t: "t = map (\<lambda>i. (i, disp slab i)) (distinct_indices s)"
      using distances_loop_Inr by blast+
    have k: "map fst t = distinct_indices s" unfolding t by (simp add: comp_def)
    have v: "\<forall>(dex, v) \<in> set t. displacement slab (get_center_of_mass slab) dex = Inr v"
      unfolding t using lookups_ok_disp[OF ok] by (auto simp: set_distinct_indices)
    show "map fst t = distinct_indices s \<and> distinct (map fst t) \<and> set (map fst t) = set s \<and>
      (\<forall>(dex, v) \<in> set t. displacement slab (get_center_of_mass slab) dex = Inr v)"
      unfolding k using v by (simp add: distinct_distinct_indices set_distinct_indices)
  qed
  have keys: ?keys by (rule dict_set_keys)
  have last: ?last by (rule map_of_dict_set)
  have dedup: ?dedup by (rule find_symmetric_pairs_distinct_indices)
  have sets: ?sets using find_symmetric_pairs_set[of s1 s1' s2 s2' slab] by blast
  show ?thesis using table keys last dedup sets by (intro conjI)
qed

theorem table_one_entry_per_index_witness:
  "distances_loop twin_slab (get_center_of_mass twin_slab) [1, 2, 1] []
     = Inr [(1, (- 1, 0, 0)), (2, (- 1, 0, 0))] \<and>
   distinct_indices [1, 2, 1 :: int] = [1, 2] \<and>
   displacement twin_slab (get_center_of_mass twin_slab) 1 = Inr (- 1, 0, 0) \<and>
   set [1, 2, 1 :: int] = set [2, 1] \<and> set [0 :: int] = set [0, 0] \<and>
   map_sum id set (find_symmetric_pairs twin_slab [1, 2, 1] [0]) =
   map_sum id set (find_symmetric_pairs twin_slab [2, 1] [0, 0])"
proof -
  let ?t = "[(1 :: int, (- 1 :: real, 0 :: real, 0 :: real)), (2, (- 1, 0, 0))]"
  have s: "set [1, 2, 1 :: int] = set [2, 1]" "set [0 :: int] = set [0, 0]" by auto
  note w = table_one_entry_per_index[where slab = twin_slab and s = "[1, 2, 1]" and t = ?t
      and ?s1.0 = "[1, 2, 1]" and s1' = "[2, 1]" and ?s2.0 = "[0]" and s2' = "[0, 0]"]
  have "map fst ?t = distinct_indices [1, 2, 1 :: int] \<and> distinct (map fst ?t) \<and>
        set (map fst ?t) = set [1, 2, 1 :: int] \<and>
        (\<forall>(dex, v) \<in> set ?t.
           displacement twin_slab (get_center_of_mass twin_slab) dex = Inr v)"
    using w[THEN conjunct1] twin_distances_loop by (rule mp)
  then have k: "map fst ?t = distinct_indices [1, 2, 1 :: int]"
    and v: "\<forall>(dex, v) \<in> set ?t. displacement twin_slab (get_center_of_mass twin_slab) dex = Inr v"
    by blast+
  have "set [1, 2, 1 :: int] = set [2, 1] \<and> set [0 :: int] = set [0, 0]"
    using s by (rule conjI)
  with w[THEN conjunct2, THEN conjunct2, THEN conjunct2, THEN conjunct2]
  have e: "map_sum id set (find_symmetric_pairs twin_slab [1, 2, 1] [0]) =
           map_sum id set (find_symmetric_pairs twin_slab [2, 1] [0, 0])"
    by (rule mp)
  from k have k': "distinct_indices [1, 2, 1 :: int] = [1, 2]" by simp
  from v have v': "displacement twin_slab (get_center_of_mass twin_slab) 1 = Inr (- 1, 0, 0)"
    by simp
  show ?thesis using twin_distances_loop k' v' s e by (intro conjI)
qed

text \<open>
  Claim C8 as stated fails where it says that the behaviour depends only on the set of
  distinct indices: the sequences \<open>[1, 2]\<close> and \<open>[2, 1]\<close> have the same set of indices and
  give the pairs in different orders.
\<close>

theorem pairs_order_depends_on_sequence:
  "set [1, 2 :: int] = set [2, 1] \<and>
   find_symmetric_pairs twin_slab [1, 2] [0] = Inr [(1, 0), (2, 0)] \<and>
   find_symmetric_pairs twin_slab [2, 1] [0] = Inr [(2, 0), (1, 0)] \<and>
   find_symmetric_pairs twin_slab [1, 2] [0] \<noteq> find_symmetric_pairs twin_slab [2, 1] [0]"
  using twin_pairs(2,3) by auto

text \<open>
  Claim C10. Whatever the two index sequences, repeated indices included, no pair occurs
  twice in the result.
\<close>

theorem symmetric_pairs_distinct:
  assumes "find_symmetric_pairs slab atom_index_set_1 atom_index_set_2 = Inr pairs"
  shows "distinct pairs"
proof (cases "lookups_ok slab atom_index_set_1 \<and> lookups_ok slab atom_index_set_2")
  case True
  then have "pairs = [(i, j). i \<leftarrow> distinct_indices atom_index_set_1,
                     j \<leftarrow> distinct_indices atom_index_set_2,
                     symmetric (disp slab i) (disp slab j)]"
    using assms find_symmetric_pairs_ok[of slab atom_index_set_1 atom_index_set_2] by simp
  then show ?thesis
    using distinct_pairs[OF distinct_distinct_indices distinct_distinct_indices] by simp
next
  case False
  then have "find_symmetric_pairs slab atom_index_set_1 atom_index_set_2 = Inl IndexError"
    using find_symmetric_pairs_err by blast
  then show ?thesis using assms by simp
qed

theorem symmetric_pairs_distinct_witness:
  "find_symmetric_pairs twin_slab [1, 2, 1] [0, 0] = Inr [(1, 0), (2, 0)] \<and>
   distinct [(1 :: int, 0 :: int), (2, 0)]"
  using symmetric_pairs_distinct[OF twin_pairs(5)] twin_pairs(5) by simp

end
